theory Spec2Isabelle
  imports Complex_Main "HOL-Library.Sublist" "HOL-Library.Product_Lexorder"
  "HOL-Library.Multiset"
begin

section \<open>Exceptions\<close>

text \<open>
  The Python exceptions that the modelled code paths raise or catch.  \<open>TimeoutError\<close> and
  \<open>ConnectionError\<close> are the two builtin classes named by the retry decorator of
  \<open>_generate_with_provider\<close>; \<open>RetryError\<close> is what the decorator raises once its
  attempts are used up (it wraps the last attempt's exception); \<open>OtherException\<close> stands
  for every other subclass of \<open>Exception\<close> (bad credentials, quota, malformed or blocked
  responses), identified by its message; \<open>AllProvidersFailed\<close> is the
  \<open>Exception("All LLM providers failed. Last error: ...")\<close> of \<open>generate_with_fallback\<close>.
\<close>

datatype exn =
    TimeoutError
  | ConnectionError
  | TypeError
  | IndexError
  | JSONDecodeError
  | RetryError exn
  | OtherException string
  | AllProvidersFailed "exn option"

section \<open>Circuit breaker (llm\_service.py, class CircuitBreaker)\<close>

datatype CircuitBreakerState = CLOSED | OPEN | HALF_OPEN

text \<open>
  Timestamps are the values of \<open>time.time()\<close>; they are modelled as real numbers and are
  passed to each operation that reads the clock.
\<close>

record CircuitBreaker =
  failure_threshold :: int
  timeout :: int
  failure_count :: int
  last_failure_time :: "real option"
  state :: CircuitBreakerState

definition CircuitBreaker_init :: "int \<Rightarrow> int \<Rightarrow> CircuitBreaker" where
  "CircuitBreaker_init thr tmo =
     \<lparr>failure_threshold = thr, timeout = tmo, failure_count = 0,
      last_failure_time = None, state = CLOSED\<rparr>"

text \<open>The defaults \<open>CIRCUIT_BREAKER["failure_threshold"]\<close> and \<open>["timeout_seconds"]\<close>.\<close>

definition default_breaker :: CircuitBreaker where
  "default_breaker = CircuitBreaker_init 5 60"

definition record_success :: "CircuitBreaker \<Rightarrow> CircuitBreaker" where
  "record_success b = b\<lparr>failure_count := 0, state := CLOSED\<rparr>"

definition record_failure :: "real \<Rightarrow> CircuitBreaker \<Rightarrow> CircuitBreaker" where
  "record_failure now b =
     (let b1 = b\<lparr>failure_count := failure_count b + 1\<rparr>;
          b2 = b1\<lparr>last_failure_time := Some now\<rparr>
      in if failure_count b2 \<ge> failure_threshold b2 then b2\<lparr>state := OPEN\<rparr> else b2)"

text \<open>
  \<open>can_attempt\<close> returns its boolean together with the (possibly updated) breaker.  In state
  \<open>OPEN\<close> it subtracts \<open>last_failure_time\<close> from the clock; were that field still
  \<open>None\<close>, Python would raise \<open>TypeError\<close>, which is the \<open>Inl\<close> branch.
\<close>

definition can_attempt :: "real \<Rightarrow> CircuitBreaker \<Rightarrow> exn + (bool \<times> CircuitBreaker)" where
  "can_attempt now b =
     (if state b = CLOSED then Inr (True, b)
      else if state b = OPEN then
        (case last_failure_time b of
           None \<Rightarrow> Inl TypeError
         | Some t \<Rightarrow>
             if now - t \<ge> real_of_int (timeout b)
             then Inr (True, b\<lparr>state := HALF_OPEN\<rparr>)
             else Inr (False, b))
      else Inr (True, b))"

text \<open>Sequences of calls on one breaker; a call that raises leaves the breaker as it was.\<close>

datatype breaker_call = RecordSuccess | RecordFailure real | CanAttempt real

fun breaker_step :: "CircuitBreaker \<Rightarrow> breaker_call \<Rightarrow> CircuitBreaker" where
  "breaker_step b RecordSuccess = record_success b"
| "breaker_step b (RecordFailure t) = record_failure t b"
| "breaker_step b (CanAttempt t) =
     (case can_attempt t b of Inl _ \<Rightarrow> b | Inr (_, b') \<Rightarrow> b')"

definition breaker_run :: "breaker_call list \<Rightarrow> CircuitBreaker \<Rightarrow> CircuitBreaker" where
  "breaker_run calls b = foldl breaker_step b calls"

text \<open>The state invariant as the specification words it.\<close>

definition spec_invariant :: "CircuitBreaker \<Rightarrow> bool" where
  "spec_invariant b \<longleftrightarrow>
     (state b = OPEN \<longrightarrow> last_failure_time b \<noteq> None \<and> failure_count b \<ge> failure_threshold b) \<and>
     (state b = CLOSED \<longrightarrow> failure_count b = 0)"

text \<open>
  The invariant the code maintains: failures are counted while the breaker is closed, so a
  closed breaker holds any count below the threshold (below 1 when the threshold is not
  positive).
\<close>

definition code_invariant :: "CircuitBreaker \<Rightarrow> bool" where
  "code_invariant b \<longleftrightarrow>
     (state b = OPEN \<longrightarrow> last_failure_time b \<noteq> None \<and> failure_count b \<ge> failure_threshold b) \<and>
     (state b = CLOSED \<longrightarrow> 0 \<le> failure_count b \<and> failure_count b < max 1 (failure_threshold b))"



text \<open>The inductive strengthening used in the proofs.\<close>

definition full_invariant :: "CircuitBreaker \<Rightarrow> bool" where
  "full_invariant b \<longleftrightarrow>
     0 \<le> failure_count b \<and>
     (state b \<noteq> CLOSED \<longrightarrow> last_failure_time b \<noteq> None \<and> failure_count b \<ge> failure_threshold b) \<and>
     (state b = CLOSED \<longrightarrow> failure_count b < max 1 (failure_threshold b))"


section \<open>Python string operations\<close>

text \<open>
  Strings are lists of characters.  \<open>lower\<close> is \<open>str.lower\<close> on the ASCII letters,
  \<open>join\<close> is \<open>sep.join(parts)\<close>, \<open>x in s\<close> on strings is \<^const>\<open>sublist\<close>,
  \<open>s.startswith(x)\<close> is \<^const>\<open>prefix\<close>.
\<close>

definition lower_char :: "char \<Rightarrow> char" where
  "lower_char c =
     (let n = (of_char c :: nat) in if 65 \<le> n \<and> n \<le> 90 then char_of (n + 32) else c)"

definition lower :: "string \<Rightarrow> string" where
  "lower s = map lower_char s"

fun join :: "string \<Rightarrow> string list \<Rightarrow> string" where
  "join sep [] = []"
| "join sep [x] = x"
| "join sep (x # y # ys) = x @ sep @ join sep (y # ys)"




text \<open>
  \<open>s.split(sep)\<close> for a non-empty separator: the pieces between the non-overlapping
  occurrences of \<open>sep\<close>, found from left to right.  (Python raises \<open>ValueError\<close> for an
  empty separator; the only separator used is the code fence.)
\<close>

function split_aux :: "string \<Rightarrow> string \<Rightarrow> string \<Rightarrow> string list" where
  "split_aux sep piece [] = [piece]"
| "split_aux sep piece (c # cs) =
     (if sep \<noteq> [] \<and> prefix sep (c # cs)
      then piece # split_aux sep [] (drop (length sep) (c # cs))
      else split_aux sep (piece @ [c]) cs)"
  by pat_completeness auto
termination
  by (relation "measure (\<lambda>(sep, piece, s). length s)") auto

definition split :: "string \<Rightarrow> string \<Rightarrow> string list" where
  "split s sep = split_aux sep [] s"




section \<open>Generation orchestrator (llm\_service.py, class LLMService)\<close>

datatype LLMProvider = GEMINI | OPENAI | ANTHROPIC | MOCK

record GenerationRequest =
  prompt :: string
  system_prompt :: "string option"
  temperature :: real
  max_tokens :: int

text \<open>
  The service holds the dictionary \<open>providers\<close> (only its key set matters here: the client
  objects are opaque) and the dictionary \<open>circuit_breakers\<close>.
\<close>

record LLMService =
  providers :: "LLMProvider set"
  circuit_breakers :: "LLMProvider \<rightharpoonup> CircuitBreaker"

text \<open>
  What the outside world does during one call of \<open>generate_with_fallback\<close>:
  \<open>attempt req p k\<close> is the outcome of the \<open>k\<close>-th execution (counted from 1) of the body
  of \<open>_generate_with_provider\<close> for provider \<open>p\<close>, a reply or the exception raised by the
  provider's SDK; \<open>check_time\<close> and \<open>fail_time\<close> are the clock values read by
  \<open>can_attempt\<close> and by \<open>record_failure\<close> for that provider.
\<close>

record llm_env =
  attempt :: "GenerationRequest \<Rightarrow> LLMProvider \<Rightarrow> nat \<Rightarrow> exn + string"
  check_time :: "GenerationRequest \<Rightarrow> LLMProvider \<Rightarrow> real"
  fail_time :: "GenerationRequest \<Rightarrow> LLMProvider \<Rightarrow> real"

subsection \<open>The retry decorator of \<open>_generate_with_provider\<close>\<close>

text \<open>
  \<open>@retry(stop=stop_after_attempt(3), wait=wait_exponential(multiplier=1, min=1, max=10),
  retry=retry_if_exception_type((TimeoutError, ConnectionError)))\<close>.
  The decorator runs the body; a reply is returned; an exception that is not of the listed
  types is re-raised as it is; otherwise, when the attempt number has reached the stop
  value, \<open>RetryError\<close> is raised, and else the decorator sleeps for
  \<open>wait_exponential\<close> of the attempt number and runs the body again.
\<close>

definition retry_if_exception_type :: "exn \<Rightarrow> bool" where
  "retry_if_exception_type e \<longleftrightarrow> e = TimeoutError \<or> e = ConnectionError"

definition stop_after_attempt :: nat where
  "stop_after_attempt = 3"

definition wait_exponential :: "real \<Rightarrow> real \<Rightarrow> real \<Rightarrow> nat \<Rightarrow> real" where
  "wait_exponential multiplier mn mx attempt_number =
     max (max 0 mn) (min (multiplier * 2 ^ (attempt_number - 1)) mx)"

record retry_outcome =
  outcome :: "exn + string"
  attempts_made :: nat
  sleeps :: "real list"

function retrying :: "(nat \<Rightarrow> exn + string) \<Rightarrow> nat \<Rightarrow> real list \<Rightarrow> retry_outcome" where
  "retrying fn attempt_number slept =
     (case fn attempt_number of
        Inr reply \<Rightarrow> \<lparr>outcome = Inr reply, attempts_made = attempt_number, sleeps = slept\<rparr>
      | Inl e \<Rightarrow>
          if \<not> retry_if_exception_type e
          then \<lparr>outcome = Inl e, attempts_made = attempt_number, sleeps = slept\<rparr>
          else if attempt_number \<ge> stop_after_attempt
          then \<lparr>outcome = Inl (RetryError e), attempts_made = attempt_number, sleeps = slept\<rparr>
          else retrying fn (attempt_number + 1)
                 (slept @ [wait_exponential 1 1 10 attempt_number]))"
  by pat_completeness auto
termination
  by (relation "measure (\<lambda>(fn, n, slept). stop_after_attempt - n)") auto

definition generate_with_provider :: "llm_env \<Rightarrow> GenerationRequest \<Rightarrow> LLMProvider \<Rightarrow> retry_outcome" where
  "generate_with_provider env req p = retrying (attempt env req p) 1 []"

subsection \<open>\<open>generate_with_fallback\<close>\<close>

definition provider_order :: "LLMProvider list" where
  "provider_order = [GEMINI, OPENAI, ANTHROPIC, MOCK]"

definition set_breaker :: "LLMProvider \<Rightarrow> CircuitBreaker \<Rightarrow> LLMService \<Rightarrow> LLMService" where
  "set_breaker p cb s = s\<lparr>circuit_breakers := (circuit_breakers s)(p \<mapsto> cb)\<rparr>"

text \<open>
  The \<open>for\<close> loop over \<open>provider_order\<close>.  Besides the result and the updated service the
  model returns the log of provider calls: one entry per call of
  \<open>_generate_with_provider\<close>, with the number of attempts the decorator made.  An
  exception of \<open>can_attempt\<close> is outside the \<open>try\<close> block and leaves the function.
\<close>

fun fallback_loop ::
  "llm_env \<Rightarrow> GenerationRequest \<Rightarrow> LLMProvider list \<Rightarrow> LLMService \<Rightarrow> exn option \<Rightarrow>
   (LLMProvider \<times> nat) list \<Rightarrow> (exn + string) \<times> LLMService \<times> (LLMProvider \<times> nat) list" where
  "fallback_loop env req [] s last_error calls = (Inl (AllProvidersFailed last_error), s, calls)"
| "fallback_loop env req (p # ps) s last_error calls =
     (if p \<notin> providers s then fallback_loop env req ps s last_error calls
      else case circuit_breakers s p of
        None \<Rightarrow>
          (let r = generate_with_provider env req p in
           case outcome r of
             Inr response \<Rightarrow> (Inr response, s, calls @ [(p, attempts_made r)])
           | Inl e \<Rightarrow> fallback_loop env req ps s (Some e) (calls @ [(p, attempts_made r)]))
      | Some cb \<Rightarrow>
          (case can_attempt (check_time env req p) cb of
             Inl e \<Rightarrow> (Inl e, s, calls)
           | Inr (ok, cb') \<Rightarrow>
               if \<not> ok then fallback_loop env req ps (set_breaker p cb' s) last_error calls
               else
                 (let r = generate_with_provider env req p in
                  case outcome r of
                    Inr response \<Rightarrow>
                      (Inr response, set_breaker p (record_success cb') s,
                       calls @ [(p, attempts_made r)])
                  | Inl e \<Rightarrow>
                      fallback_loop env req ps
                        (set_breaker p (record_failure (fail_time env req p) cb') s)
                        (Some e) (calls @ [(p, attempts_made r)]))))"

definition generate_with_fallback ::
  "llm_env \<Rightarrow> GenerationRequest \<Rightarrow> LLMService \<Rightarrow>
   (exn + string) \<times> LLMService \<times> (LLMProvider \<times> nat) list" where
  "generate_with_fallback env req s = fallback_loop env req provider_order s None []"


section \<open>Retrieval engine (datamodels.py, search\_service.py)\<close>

datatype PriceRange = BUDGET | MID_RANGE | PREMIUM | FLAGSHIP

text \<open>
  A catalogue row (\<open>MobilePhoneDB\<close>, converted field by field to \<open>MobilePhone\<close>).  The
  fields that no modelled operation reads (display type, refresh rate, resolution, the
  camera descriptions, fast charging, OS, IP rating, thickness, cons, launch date and the
  two row timestamps) are left out.  The field \<open>id\<close> is called \<open>phone_id\<close>, and the
  filter field \<open>keywords\<close> is called \<open>keywords_field\<close>.  Prices and
  display sizes are Python floats, modelled as reals; brands are the strings stored in the
  table.
\<close>

record MobilePhone =
  phone_id :: int
  name :: string
  brand :: string
  price :: real
  price_range :: PriceRange
  display_size :: real
  processor :: string
  ram :: int
  storage :: int
  has_ois :: bool
  has_eis :: bool
  battery_capacity :: int
  wireless_charging :: bool
  five_g :: bool
  nfc :: bool
  weight :: int
  highlights :: "string list"
  pros :: "string list"
  availability :: bool

record SearchFilters =
  brands :: "string list option"
  min_price :: "real option"
  max_price :: "real option"
  price_range :: "PriceRange option"
  min_ram :: "int option"
  min_storage :: "int option"
  min_battery :: "int option"
  five_g :: "bool option"
  nfc :: "bool option"
  wireless_charging :: "bool option"
  camera_focus :: "bool option"
  battery_focus :: "bool option"
  performance_focus :: "bool option"
  compact_size :: "bool option"
  keywords_field :: "string list"

text \<open>\<open>SearchFilters()\<close>: every field at its default.\<close>

definition SearchFilters_default :: SearchFilters where
  "SearchFilters_default =
     \<lparr>brands = None, min_price = None, max_price = None, price_range = None,
      min_ram = None, min_storage = None, min_battery = None,
      five_g = None, nfc = None, wireless_charging = None,
      camera_focus = None, battery_focus = None, performance_focus = None,
      compact_size = None, keywords_field = []\<rparr>"

subsection \<open>Truth value of an optional field in an \<open>if\<close>\<close>

definition truthy_int :: "int option \<Rightarrow> bool" where
  "truthy_int v = (case v of None \<Rightarrow> False | Some n \<Rightarrow> n \<noteq> 0)"

definition truthy_bool :: "bool option \<Rightarrow> bool" where
  "truthy_bool v = (case v of None \<Rightarrow> False | Some b \<Rightarrow> b)"

definition truthy_list :: "'a list option \<Rightarrow> bool" where
  "truthy_list v = (case v of None \<Rightarrow> False | Some xs \<Rightarrow> xs \<noteq> [])"

subsection \<open>\<open>SearchService.search\<close>\<close>

text \<open>
  The query is built by successive \<open>.filter(...)\<close> calls, each guarded by an \<open>if\<close> on the
  filter field.  \<open>price_range\<close> holds a non-empty enum value whenever it is set, so its
  guard is true exactly when the field is set.
\<close>

definition filter_if :: "bool \<Rightarrow> ('a \<Rightarrow> bool) \<Rightarrow> 'a list \<Rightarrow> 'a list" where
  "filter_if c P rows = (if c then filter P rows else rows)"

definition apply_filters :: "SearchFilters \<Rightarrow> MobilePhone list \<Rightarrow> MobilePhone list" where
  "apply_filters f rows =
     (let q = filter (\<lambda>p. availability p = True) rows;
          q = filter_if (truthy_list (brands f)) (\<lambda>p. brand p \<in> set (the (brands f))) q;
          q = filter_if (min_price f \<noteq> None) (\<lambda>p. price p \<ge> the (min_price f)) q;
          q = filter_if (max_price f \<noteq> None) (\<lambda>p. price p \<le> the (max_price f)) q;
          q = filter_if (price_range f \<noteq> None)
                (\<lambda>p. MobilePhone.price_range p = the (price_range f)) q;
          q = filter_if (truthy_int (min_ram f)) (\<lambda>p. ram p \<ge> the (min_ram f)) q;
          q = filter_if (truthy_int (min_storage f)) (\<lambda>p. storage p \<ge> the (min_storage f)) q;
          q = filter_if (truthy_int (min_battery f))
                (\<lambda>p. battery_capacity p \<ge> the (min_battery f)) q;
          q = filter_if (five_g f \<noteq> None) (\<lambda>p. MobilePhone.five_g p = the (five_g f)) q;
          q = filter_if (nfc f \<noteq> None) (\<lambda>p. MobilePhone.nfc p = the (nfc f)) q;
          q = filter_if (wireless_charging f \<noteq> None)
                (\<lambda>p. MobilePhone.wireless_charging p = the (wireless_charging f)) q
      in q)"

text \<open>
  The \<open>if\<close>/\<open>elif\<close> chain that picks the \<open>order_by\<close> clause.  SQL leaves the order of rows
  with equal sort keys open; the model keeps them in table order (a stable sort).
  Descending order on a boolean column puts \<open>True\<close> first.
\<close>

datatype ordering_rule = CameraOrder | BatteryOrder | PerformanceOrder | CompactOrder | PriceOrder

definition choose_order :: "SearchFilters \<Rightarrow> ordering_rule" where
  "choose_order f =
     (if truthy_bool (camera_focus f) then CameraOrder
      else if truthy_bool (battery_focus f) then BatteryOrder
      else if truthy_bool (performance_focus f) then PerformanceOrder
      else if truthy_bool (compact_size f) then CompactOrder
      else PriceOrder)"

fun order_by :: "ordering_rule \<Rightarrow> MobilePhone list \<Rightarrow> MobilePhone list" where
  "order_by CameraOrder rows = sort_key (\<lambda>p. (\<not> has_ois p, \<not> has_eis p)) rows"
| "order_by BatteryOrder rows = sort_key (\<lambda>p. - battery_capacity p) rows"
| "order_by PerformanceOrder rows = sort_key (\<lambda>p. - ram p) rows"
| "order_by CompactOrder rows = sort_key (\<lambda>p. (weight p, display_size p)) rows"
| "order_by PriceOrder rows = sort_key price rows"

definition query_rows :: "MobilePhone list \<Rightarrow> SearchFilters \<Rightarrow> nat \<Rightarrow> MobilePhone list" where
  "query_rows catalog f limit = take limit (order_by (choose_order f) (apply_filters f catalog))"

subsection \<open>Keyword scoring\<close>

definition searchable :: "MobilePhone \<Rightarrow> string" where
  "searchable phone =
     join '' '' [lower (name phone), lower (brand phone), lower (processor phone),
                 lower (join '' '' (highlights phone)), lower (join '' '' (pros phone))]"

definition score_keyword :: "MobilePhone \<Rightarrow> real \<Rightarrow> string \<Rightarrow> real" where
  "score_keyword phone score keyword =
     (let keyword_lower = lower keyword in
      if sublist keyword_lower (searchable phone) then
        (let score = score + 1;
             score = (if sublist keyword_lower (lower (name phone)) then score + 1 / 2 else score);
             score = (if sublist keyword_lower (lower (brand phone)) then score + 1 / 2 else score)
         in score)
      else score)"

definition calculate_keyword_score :: "MobilePhone \<Rightarrow> string list \<Rightarrow> real" where
  "calculate_keyword_score phone kws = foldl (score_keyword phone) 0 kws"

text \<open>
  \<open>scored_results.sort(key=..., reverse=True)\<close> is stable: equal scores keep their order.
\<close>

definition filter_by_keywords :: "MobilePhone list \<Rightarrow> string list \<Rightarrow> MobilePhone list" where
  "filter_by_keywords phones kws =
     (let scored_results =
            filter (\<lambda>(phone, score). score > 0)
              (map (\<lambda>phone. (phone, calculate_keyword_score phone kws)) phones)
      in map fst (sort_key (\<lambda>(phone, score). - score) scored_results))"

text \<open>
  \<open>search\<close> itself.  The limit is a natural number (callers pass the configured maximum
  or a default); the analytics row written when a session id is given does not affect
  the returned list and is not modelled.
\<close>

definition search :: "MobilePhone list \<Rightarrow> SearchFilters \<Rightarrow> nat \<Rightarrow> MobilePhone list" where
  "search catalog f limit =
     (let results = query_rows catalog f limit;
          results = (if keywords_field f \<noteq> []
                     then filter_by_keywords results (keywords_field f)
                     else results)
      in take limit results)"

text \<open>The ordering rules as the specification words them: \<open>a\<close> may stand before \<open>b\<close>.\<close>

fun may_precede :: "ordering_rule \<Rightarrow> MobilePhone \<Rightarrow> MobilePhone \<Rightarrow> bool" where
  "may_precede CameraOrder a b \<longleftrightarrow>
     (has_ois a \<and> \<not> has_ois b) \<or> (has_ois a = has_ois b \<and> (has_eis a \<or> \<not> has_eis b))"
| "may_precede BatteryOrder a b \<longleftrightarrow> battery_capacity a \<ge> battery_capacity b"
| "may_precede PerformanceOrder a b \<longleftrightarrow> ram a \<ge> ram b"
| "may_precede CompactOrder a b \<longleftrightarrow>
     weight a < weight b \<or> (weight a = weight b \<and> display_size a \<le> display_size b)"
| "may_precede PriceOrder a b \<longleftrightarrow> price a \<le> price b"


subsection \<open>\<open>compare_phones\<close> and the \<open>/compare\<close> endpoint (main.py)\<close>






section \<open>Operations derived from \<open>generate_with_fallback\<close> (llm\_service.py)\<close>







subsection \<open>\<open>classify_intent\<close>\<close>


subsection \<open>\<open>extract_filters\<close>\<close>








subsection \<open>\<open>generate_response\<close>\<close>





section \<open>Safety gate (safety\_service.py, constants.py, config.py)\<close>

subsection \<open>Regular expressions\<close>













subsection \<open>Settings and messages\<close>





subsection \<open>\<open>SafetyService\<close>\<close>







section \<open>The chat pipeline (main.py, function chat)\<close>











section \<open>Example inputs\<close>

text \<open>
  A service with the three real providers configured and fresh breakers, a request, and a
  world in which Gemini times out on every attempt, OpenAI rejects the credentials and
  Anthropic replies.
\<close>

definition fresh_service :: LLMService where
  "fresh_service =
     \<lparr>providers = {GEMINI, OPENAI, ANTHROPIC},
      circuit_breakers = [GEMINI \<mapsto> default_breaker, OPENAI \<mapsto> default_breaker,
                          ANTHROPIC \<mapsto> default_breaker]\<rparr>"

definition example_request :: GenerationRequest where
  "example_request = \<lparr>prompt = ''Query: phones'', system_prompt = None,
                        temperature = 0.7, max_tokens = 2048\<rparr>"

definition example_env :: llm_env where
  "example_env =
     \<lparr>attempt = (\<lambda>req p k.
         if p = GEMINI then Inl TimeoutError
         else if p = OPENAI then Inl (OtherException ''invalid api key'')
         else Inr ''reply''),
      check_time = (\<lambda>req p. 100),
      fail_time = (\<lambda>req p. 101)\<rparr>"

text \<open>
  A two-row catalogue: a flagship with 12 GB of memory and 5G, and a mid-range phone with
  8 GB and without 5G whose list of pros mentions the other phone's name.
\<close>

definition galaxy :: MobilePhone where
  "galaxy =
     \<lparr>phone_id = 1, name = ''Galaxy S24'', brand = ''Samsung'', price = 50000,
      price_range = PREMIUM, display_size = 6.2, processor = ''Exynos 2400'',
      ram = 12, storage = 256, has_ois = True, has_eis = True, battery_capacity = 4000,
      wireless_charging = True, five_g = True, nfc = True, weight = 167,
      highlights = [''Bright display''], pros = [''Great camera''], availability = True\<rparr>"

definition redmi :: MobilePhone where
  "redmi =
     \<lparr>phone_id = 2, name = ''Redmi Note 13'', brand = ''Xiaomi'', price = 25000,
      price_range = MID_RANGE, display_size = 6.67, processor = ''Snapdragon 685'',
      ram = 8, storage = 128, has_ois = False, has_eis = True, battery_capacity = 5000,
      wireless_charging = False, five_g = False, nfc = False, weight = 188,
      highlights = [''Big battery''], pros = [''Pairs with Galaxy Buds''],
      availability = True\<rparr>"

definition example_catalog :: "MobilePhone list" where
  "example_catalog = [galaxy, redmi]"

definition focus_filters :: SearchFilters where
  "focus_filters = SearchFilters_default
     \<lparr>camera_focus := Some False, performance_focus := Some True, compact_size := Some True\<rparr>"











section \<open>Circuit breaker: proofs\<close>

lemma full_invariant_init: "full_invariant (CircuitBreaker_init thr tmo)"
  by (simp add: full_invariant_def CircuitBreaker_init_def)

lemma full_invariant_step:
  assumes "full_invariant b"
  shows "full_invariant (breaker_step b c)"
proof (cases c)
  case RecordSuccess
  then show ?thesis
    by (simp add: full_invariant_def record_success_def)
next
  case (RecordFailure t)
  with assms show ?thesis
    by (cases "state b") (auto simp: full_invariant_def record_failure_def Let_def)
next
  case (CanAttempt t)
  with assms show ?thesis
    by (auto simp: full_invariant_def can_attempt_def split: option.splits)
qed

lemma full_invariant_run:
  "full_invariant b \<Longrightarrow> full_invariant (breaker_run calls b)"
  unfolding breaker_run_def
  by (induction calls arbitrary: b) (simp_all add: full_invariant_step)

lemma full_invariant_reachable:
  "full_invariant (breaker_run calls (CircuitBreaker_init thr tmo))"
  by (rule full_invariant_run [OF full_invariant_init])



text \<open>
  C2 (as stated): in every reachable state, \<open>OPEN\<close> implies that \<open>last_failure_time\<close> is set
  and \<open>failure_count \<ge> failure_threshold\<close>, and \<open>CLOSED\<close> implies \<open>failure_count = 0\<close>.
  The second half fails: one recorded failure on a fresh default breaker leaves it closed
  with a count of 1.
\<close>

theorem C2_closed_count_counterexample:
  "\<not> spec_invariant (breaker_run [RecordFailure 0] (CircuitBreaker_init 5 60))"
  by (simp add: spec_invariant_def breaker_run_def record_failure_def
                CircuitBreaker_init_def Let_def)

text \<open>
  C2 (amended): in every state reachable from the initial one by \<open>record_success\<close>,
  \<open>record_failure\<close> and \<open>can_attempt\<close> calls, \<open>OPEN\<close> implies that \<open>last_failure_time\<close> is
  set and \<open>failure_count \<ge> failure_threshold\<close>, and \<open>CLOSED\<close> implies
  \<open>0 \<le> failure_count < max 1 failure_threshold\<close>.
\<close>

theorem C2_breaker_invariant:
  "code_invariant (breaker_run calls (CircuitBreaker_init thr tmo))"
  using full_invariant_reachable [of calls thr tmo]
  by (auto simp: code_invariant_def full_invariant_def)

theorem C2_breaker_invariant_witness:
  "code_invariant (breaker_run [RecordFailure 0, RecordFailure 1] (CircuitBreaker_init 2 60)) \<and>
   state (breaker_run [RecordFailure 0, RecordFailure 1] (CircuitBreaker_init 2 60)) = OPEN \<and>
   code_invariant (breaker_run [RecordFailure 0] (CircuitBreaker_init 2 60)) \<and>
   state (breaker_run [RecordFailure 0] (CircuitBreaker_init 2 60)) = CLOSED \<and>
   failure_count (breaker_run [RecordFailure 0] (CircuitBreaker_init 2 60)) = 1"
  using C2_breaker_invariant [of "[RecordFailure 0, RecordFailure 1]" 2 60]
        C2_breaker_invariant [of "[RecordFailure 0]" 2 60]
  by (simp add: breaker_run_def record_failure_def CircuitBreaker_init_def Let_def)













section \<open>Generation orchestrator: proofs\<close>

lemma providers_set_breaker [simp]: "providers (set_breaker p cb s) = providers s"
  by (simp add: set_breaker_def)

lemma breakers_set_breaker:
  "circuit_breakers (set_breaker p cb s) q = (if q = p then Some cb else circuit_breakers s q)"
  by (simp add: set_breaker_def)

lemma fallback_loop_skips_unconfigured:
  "fallback_loop env req ps s le calls =
   fallback_loop env req (filter (\<lambda>p. p \<in> providers s) ps) s le calls"
proof (induction ps arbitrary: s le calls)
  case Nil
  show ?case by simp
next
  case (Cons p ps)
  show ?case
  proof (cases "p \<in> providers s")
    case False
    then show ?thesis using Cons.IH [of s le calls] by simp
  next
    case True
    have ih: "\<And>cb l c. fallback_loop env req ps (set_breaker p cb s) l c =
        fallback_loop env req (filter (\<lambda>p. p \<in> providers s) ps) (set_breaker p cb s) l c"
      using Cons.IH [of "set_breaker p cb s" for cb] by simp
    show ?thesis
      using True Cons.IH [of s] ih
      by (simp add: Let_def split: option.splits sum.splits prod.splits)
  qed
qed

lemma fallback_step_failure:
  assumes "p \<in> providers s" "circuit_breakers s p = Some cb"
    "can_attempt (check_time env req p) cb = Inr (True, cb')"
    "outcome (generate_with_provider env req p) = Inl e"
  shows "fallback_loop env req (p # ps) s le calls =
         fallback_loop env req ps (set_breaker p (record_failure (fail_time env req p) cb') s)
           (Some e) (calls @ [(p, attempts_made (generate_with_provider env req p))])"
  using assms by (simp add: Let_def)

lemma fallback_step_success:
  assumes "p \<in> providers s" "circuit_breakers s p = Some cb"
    "can_attempt (check_time env req p) cb = Inr (True, cb')"
    "outcome (generate_with_provider env req p) = Inr r"
  shows "fallback_loop env req (p # ps) s le calls =
         (Inr r, set_breaker p (record_success cb') s,
          calls @ [(p, attempts_made (generate_with_provider env req p))])"
  using assms by (simp add: Let_def)

lemma can_attempt_closed: "state cb = CLOSED \<Longrightarrow> can_attempt t cb = Inr (True, cb)"
  by (simp add: can_attempt_def)

text \<open>
  C1: let \<open>A\<close>, \<open>B\<close>, \<open>C\<close> be the first three configured providers in the fixed order
  Gemini, OpenAI, Anthropic, Mock, each with a closed breaker; if the calls to \<open>A\<close> and
  \<open>B\<close> fail and the call to \<open>C\<close> succeeds, then \<open>generate_with_fallback\<close> calls exactly
  \<open>A\<close>, \<open>B\<close>, \<open>C\<close> in this order, returns the reply of \<open>C\<close> and stops there; the
  breakers of \<open>A\<close> and \<open>B\<close> have had \<open>record_failure\<close> applied once (their count is one
  higher), the breaker of \<open>C\<close> has had \<open>record_success\<close> applied (count 0, closed), and
  no other breaker has changed.
\<close>

theorem C1_fallback_order:
  assumes conf: "filter (\<lambda>p. p \<in> providers s) provider_order = A # B # C # rest"
    and bA: "circuit_breakers s A = Some cbA" "state cbA = CLOSED"
    and bB: "circuit_breakers s B = Some cbB" "state cbB = CLOSED"
    and bC: "circuit_breakers s C = Some cbC" "state cbC = CLOSED"
    and oA: "outcome (generate_with_provider env req A) = Inl eA"
    and oB: "outcome (generate_with_provider env req B) = Inl eB"
    and oC: "outcome (generate_with_provider env req C) = Inr response"
  shows "generate_with_fallback env req s =
           (Inr response,
            s\<lparr>circuit_breakers := (circuit_breakers s)
                (A \<mapsto> record_failure (fail_time env req A) cbA,
                 B \<mapsto> record_failure (fail_time env req B) cbB,
                 C \<mapsto> record_success cbC)\<rparr>,
            [(A, attempts_made (generate_with_provider env req A)),
             (B, attempts_made (generate_with_provider env req B)),
             (C, attempts_made (generate_with_provider env req C))]) \<and>
         failure_count (record_failure (fail_time env req A) cbA) = failure_count cbA + 1 \<and>
         failure_count (record_failure (fail_time env req B) cbB) = failure_count cbB + 1 \<and>
         failure_count (record_success cbC) = 0 \<and> state (record_success cbC) = CLOSED"
proof -
  have "distinct (filter (\<lambda>p. p \<in> providers s) provider_order)"
    by (simp add: provider_order_def)
  then have ne: "A \<noteq> B" "A \<noteq> C" "B \<noteq> C" "B \<noteq> A" "C \<noteq> A" "C \<noteq> B"
    unfolding conf by auto
  have "set (A # B # C # rest) \<subseteq> providers s"
    unfolding conf [symmetric] by auto
  then have mem: "A \<in> providers s" "B \<in> providers s" "C \<in> providers s"
    by auto
  let ?s1 = "set_breaker A (record_failure (fail_time env req A) cbA) s"
  let ?s2 = "set_breaker B (record_failure (fail_time env req B) cbB) ?s1"
  let ?cA = "[(A, attempts_made (generate_with_provider env req A))]"
  let ?cB = "?cA @ [(B, attempts_made (generate_with_provider env req B))]"
  have "generate_with_fallback env req s = fallback_loop env req (A # B # C # rest) s None []"
    unfolding generate_with_fallback_def
    by (subst fallback_loop_skips_unconfigured) (simp add: conf)
  also have "\<dots> = fallback_loop env req (B # C # rest) ?s1 (Some eA) ([] @ ?cA)"
    by (rule fallback_step_failure [OF mem(1) bA(1) can_attempt_closed [OF bA(2)] oA])
  also have "\<dots> = fallback_loop env req (C # rest) ?s2 (Some eB) (([] @ ?cA) @ [(B, attempts_made (generate_with_provider env req B))])"
    by (rule fallback_step_failure [OF _ _ can_attempt_closed [OF bB(2)] oB])
       (simp_all add: mem breakers_set_breaker ne bB)
  also have "\<dots> = (Inr response, set_breaker C (record_success cbC) ?s2,
       (([] @ ?cA) @ [(B, attempts_made (generate_with_provider env req B))]) @ [(C, attempts_made (generate_with_provider env req C))])"
    by (rule fallback_step_success [OF _ _ can_attempt_closed [OF bC(2)] oC])
       (simp_all add: mem breakers_set_breaker ne bC)
  finally have main: "generate_with_fallback env req s =
      (Inr response, set_breaker C (record_success cbC) ?s2,
       [(A, attempts_made (generate_with_provider env req A)),
        (B, attempts_made (generate_with_provider env req B)),
        (C, attempts_made (generate_with_provider env req C))])"
    by simp
  show ?thesis
    unfolding main
    by (simp add: set_breaker_def record_failure_def record_success_def Let_def)


qed


theorem C1_fallback_order_witness:
  "generate_with_fallback example_env example_request fresh_service =
     (Inr ''reply'',
      fresh_service\<lparr>circuit_breakers := (circuit_breakers fresh_service)
          (GEMINI \<mapsto> record_failure 101 default_breaker,
           OPENAI \<mapsto> record_failure 101 default_breaker,
           ANTHROPIC \<mapsto> record_success default_breaker)\<rparr>,
      [(GEMINI, 3), (OPENAI, 1), (ANTHROPIC, 1)]) \<and>
   failure_count (record_failure 101 default_breaker) = 1 \<and>
   failure_count (record_success default_breaker) = 0"
proof -
  have conf: "filter (\<lambda>p. p \<in> providers fresh_service) provider_order =
                GEMINI # OPENAI # ANTHROPIC # []"
    by (simp add: fresh_service_def provider_order_def)
  have br: "circuit_breakers fresh_service GEMINI = Some default_breaker"
    "circuit_breakers fresh_service OPENAI = Some default_breaker"
    "circuit_breakers fresh_service ANTHROPIC = Some default_breaker"
    by (simp_all add: fresh_service_def)
  have cl: "state default_breaker = CLOSED"
    by (simp add: default_breaker_def CircuitBreaker_init_def)
  have g: "generate_with_provider example_env example_request GEMINI =
             \<lparr>outcome = Inl (RetryError TimeoutError), attempts_made = 3, sleeps = [1, 2]\<rparr>"
    by (simp add: generate_with_provider_def example_env_def retrying.simps
          retry_if_exception_type_def stop_after_attempt_def wait_exponential_def)
  have o: "generate_with_provider example_env example_request OPENAI =
             \<lparr>outcome = Inl (OtherException ''invalid api key''), attempts_made = 1,
              sleeps = []\<rparr>"
    by (simp add: generate_with_provider_def example_env_def retrying.simps
          retry_if_exception_type_def)
  have a: "generate_with_provider example_env example_request ANTHROPIC =
             \<lparr>outcome = Inr ''reply'', attempts_made = 1, sleeps = []\<rparr>"
    by (simp add: generate_with_provider_def example_env_def retrying.simps)
  have ft: "fail_time example_env example_request GEMINI = 101"
    "fail_time example_env example_request OPENAI = 101"
    by (simp_all add: example_env_def)
  show ?thesis
    using C1_fallback_order [OF conf br(1) cl br(2) cl br(3) cl,
            of example_env example_request "RetryError TimeoutError"
               "OtherException ''invalid api key''" "''reply''"]
    by (simp add: g o a ft)
       (simp add: default_breaker_def CircuitBreaker_init_def record_failure_def
          record_success_def Let_def)
qed









section \<open>Filter extraction: proofs\<close>

















section \<open>Retrieval engine: proofs\<close>


subsection \<open>Ordering\<close>

lemma sort_key_sorted_wrt:
  assumes "\<And>a b. f a \<le> f b \<Longrightarrow> R a b"
  shows "sorted_wrt R (sort_key f xs)"
proof -
  have "sorted (map f (sort_key f xs))"
    by simp
  then have "sorted_wrt (\<lambda>a b. f a \<le> f b) (sort_key f xs)"
    by (simp only: sorted_map)
  then show ?thesis
    by (rule sorted_wrt_mono_rel [rotated]) (simp add: assms)
qed

lemma order_by_sorted: "sorted_wrt (may_precede rule) (order_by rule rows)"
proof (cases rule)
  case CameraOrder
  show ?thesis
    unfolding CameraOrder order_by.simps
    by (rule sort_key_sorted_wrt) (auto simp: less_eq_prod_def)
next
  case BatteryOrder
  show ?thesis
    unfolding BatteryOrder order_by.simps
    by (rule sort_key_sorted_wrt) simp
next
  case PerformanceOrder
  show ?thesis
    unfolding PerformanceOrder order_by.simps
    by (rule sort_key_sorted_wrt) simp
next
  case CompactOrder
  show ?thesis
    unfolding CompactOrder order_by.simps
    by (rule sort_key_sorted_wrt) (auto simp: less_eq_prod_def)
next
  case PriceOrder
  show ?thesis
    unfolding PriceOrder order_by.simps
    by (rule sort_key_sorted_wrt) simp
qed

lemma order_by_mset: "mset (order_by rule rows) = mset rows"
  by (cases rule) simp_all

text \<open>
  C7: \<open>search\<close> applies exactly one ordering rule, the first that matches in the priority
  camera focus, battery focus, performance focus, compact size, default.  The rows fetched
  by the query are the first \<open>limit\<close> rows of a rearrangement of the rows passing the
  constraints that is ordered by the chosen rule: (has-OIS descending, has-EIS
  descending), battery capacity descending, RAM descending, (weight ascending, display
  size ascending), or price ascending.  Without keywords these rows are the result of
  \<open>search\<close>.
\<close>

theorem C7_single_ordering_rule:
  "choose_order f =
     (if camera_focus f = Some True then CameraOrder
      else if battery_focus f = Some True then BatteryOrder
      else if performance_focus f = Some True then PerformanceOrder
      else if compact_size f = Some True then CompactOrder
      else PriceOrder) \<and>
   (\<exists>rows. mset rows = mset (apply_filters f catalog) \<and>
           sorted_wrt (may_precede (choose_order f)) rows \<and>
           query_rows catalog f limit = take limit rows) \<and>
   sorted_wrt (may_precede (choose_order f)) (query_rows catalog f limit) \<and>
   (keywords_field f = [] \<longrightarrow> search catalog f limit = query_rows catalog f limit)"
proof -
  have rule: "choose_order f =
     (if camera_focus f = Some True then CameraOrder
      else if battery_focus f = Some True then BatteryOrder
      else if performance_focus f = Some True then PerformanceOrder
      else if compact_size f = Some True then CompactOrder
      else PriceOrder)"
    by (simp add: choose_order_def truthy_bool_def split: option.splits)
  let ?rows = "order_by (choose_order f) (apply_filters f catalog)"
  have srt: "sorted_wrt (may_precede (choose_order f)) ?rows"
    by (rule order_by_sorted)
  have ex: "\<exists>rows. mset rows = mset (apply_filters f catalog) \<and>
           sorted_wrt (may_precede (choose_order f)) rows \<and>
           query_rows catalog f limit = take limit rows"
    using srt order_by_mset [of "choose_order f" "apply_filters f catalog"]
    unfolding query_rows_def by blast
  have tk: "sorted_wrt (may_precede (choose_order f)) (query_rows catalog f limit)"
    unfolding query_rows_def using srt by (rule sorted_wrt_take)
  have nokw: "keywords_field f = [] \<longrightarrow> search catalog f limit = query_rows catalog f limit"
    by (simp add: search_def query_rows_def)
  show ?thesis
    using rule ex tk nokw by blast
qed

theorem C7_single_ordering_rule_witness:
  "choose_order focus_filters = PerformanceOrder \<and>
   keywords_field focus_filters = [] \<and>
   search example_catalog focus_filters 10 = [galaxy, redmi] \<and>
   sorted_wrt (may_precede (choose_order focus_filters)) (search example_catalog focus_filters 10)"
proof -
  have kw: "keywords_field focus_filters = []"
    by (simp add: focus_filters_def SearchFilters_default_def)
  have res: "query_rows example_catalog focus_filters 10 = [galaxy, redmi]"
    by code_simp
  have co: "choose_order focus_filters = PerformanceOrder"
    by code_simp
  show ?thesis
    using C7_single_ordering_rule [of focus_filters example_catalog 10] kw res co
    by simp
qed

subsection \<open>Keyword scoring\<close>

lemma set_filter_if: "x \<in> set (filter_if c P q) \<longleftrightarrow> x \<in> set q \<and> (c \<longrightarrow> P x)"
  by (simp add: filter_if_def)

lemma in_apply_filters:
  "p \<in> set (apply_filters f rows) \<longleftrightarrow>
     p \<in> set rows \<and> availability p \<and>
     (truthy_list (brands f) \<longrightarrow> brand p \<in> set (the (brands f))) \<and>
     (min_price f \<noteq> None \<longrightarrow> price p \<ge> the (min_price f)) \<and>
     (max_price f \<noteq> None \<longrightarrow> price p \<le> the (max_price f)) \<and>
     (price_range f \<noteq> None \<longrightarrow> MobilePhone.price_range p = the (price_range f)) \<and>
     (truthy_int (min_ram f) \<longrightarrow> ram p \<ge> the (min_ram f)) \<and>
     (truthy_int (min_storage f) \<longrightarrow> storage p \<ge> the (min_storage f)) \<and>
     (truthy_int (min_battery f) \<longrightarrow> battery_capacity p \<ge> the (min_battery f)) \<and>
     (five_g f \<noteq> None \<longrightarrow> MobilePhone.five_g p = the (five_g f)) \<and>
     (nfc f \<noteq> None \<longrightarrow> MobilePhone.nfc p = the (nfc f)) \<and>
     (wireless_charging f \<noteq> None \<longrightarrow>
        MobilePhone.wireless_charging p = the (wireless_charging f))"
  unfolding apply_filters_def Let_def set_filter_if set_filter
  by blast

lemma filter_if_False: "filter_if False P q = q"
  by (simp add: filter_if_def)

lemma apply_filters_zero_min:
  "apply_filters (f\<lparr>min_ram := Some 0\<rparr>) rows = apply_filters (f\<lparr>min_ram := None\<rparr>) rows"
  "apply_filters (f\<lparr>min_storage := Some 0\<rparr>) rows =
     apply_filters (f\<lparr>min_storage := None\<rparr>) rows"
  "apply_filters (f\<lparr>min_battery := Some 0\<rparr>) rows =
     apply_filters (f\<lparr>min_battery := None\<rparr>) rows"
  by (simp_all add: apply_filters_def truthy_int_def filter_if_False)

lemma apply_filters_focus:
  "apply_filters (f\<lparr>camera_focus := v\<rparr>) rows = apply_filters f rows"
  "apply_filters (f\<lparr>battery_focus := v\<rparr>) rows = apply_filters f rows"
  "apply_filters (f\<lparr>performance_focus := v\<rparr>) rows = apply_filters f rows"
  "apply_filters (f\<lparr>compact_size := v\<rparr>) rows = apply_filters f rows"
  by (simp_all add: apply_filters_def)

lemma order_by_set: "set (order_by rule rows) = set rows"
  by (cases rule) simp_all

lemma filter_by_keywords_set:
  "set (filter_by_keywords phones kws) =
     {p \<in> set phones. calculate_keyword_score p kws > 0}"
  by (auto simp: filter_by_keywords_def Let_def image_iff)

lemma query_rows_subset: "set (query_rows catalog f limit) \<subseteq> set (apply_filters f catalog)"
  unfolding query_rows_def
  using set_take_subset [of limit "order_by (choose_order f) (apply_filters f catalog)"]
  by (simp add: order_by_set)

lemma search_subset: "set (search catalog f limit) \<subseteq> set (apply_filters f catalog)"
proof -
  have "set (search catalog f limit) \<subseteq> set (query_rows catalog f limit)"
    unfolding search_def Let_def
    using set_take_subset [of limit "filter_by_keywords (query_rows catalog f limit) (keywords_field f)"]
          set_take_subset [of limit "query_rows catalog f limit"]
    by (auto simp: filter_by_keywords_set)
  then show ?thesis
    using query_rows_subset by blast
qed












subsection \<open>Comparison\<close>





subsection \<open>Zero and False in the filters\<close>

text \<open>
  C10: \<open>search\<close> returns the same list for \<open>min_ram\<close>, \<open>min_storage\<close> or
  \<open>min_battery\<close> set to 0 as for the field unset, and the same list for a focus flag
  (\<open>camera_focus\<close>, \<open>battery_focus\<close>, \<open>performance_focus\<close>, \<open>compact_size\<close>) set to
  \<open>False\<close> as for the flag unset; whereas \<open>five_g\<close>, \<open>nfc\<close> or \<open>wireless_charging\<close>
  set to \<open>False\<close> is a constraint: every returned product has that feature \<open>False\<close>.
\<close>

theorem C10_zero_and_false_like_absent:
  "search catalog (f\<lparr>min_ram := Some 0\<rparr>) limit = search catalog (f\<lparr>min_ram := None\<rparr>) limit \<and>
   search catalog (f\<lparr>min_storage := Some 0\<rparr>) limit =
     search catalog (f\<lparr>min_storage := None\<rparr>) limit \<and>
   search catalog (f\<lparr>min_battery := Some 0\<rparr>) limit =
     search catalog (f\<lparr>min_battery := None\<rparr>) limit \<and>
   search catalog (f\<lparr>camera_focus := Some False\<rparr>) limit =
     search catalog (f\<lparr>camera_focus := None\<rparr>) limit \<and>
   search catalog (f\<lparr>battery_focus := Some False\<rparr>) limit =
     search catalog (f\<lparr>battery_focus := None\<rparr>) limit \<and>
   search catalog (f\<lparr>performance_focus := Some False\<rparr>) limit =
     search catalog (f\<lparr>performance_focus := None\<rparr>) limit \<and>
   search catalog (f\<lparr>compact_size := Some False\<rparr>) limit =
     search catalog (f\<lparr>compact_size := None\<rparr>) limit \<and>
   (\<forall>p \<in> set (search catalog (f\<lparr>five_g := Some False\<rparr>) limit). \<not> MobilePhone.five_g p) \<and>
   (\<forall>p \<in> set (search catalog (f\<lparr>nfc := Some False\<rparr>) limit). \<not> MobilePhone.nfc p) \<and>
   (\<forall>p \<in> set (search catalog (f\<lparr>wireless_charging := Some False\<rparr>) limit).
        \<not> MobilePhone.wireless_charging p)"
proof -
  have zero: "search catalog (f\<lparr>min_ram := Some 0\<rparr>) limit =
                search catalog (f\<lparr>min_ram := None\<rparr>) limit"
    "search catalog (f\<lparr>min_storage := Some 0\<rparr>) limit =
       search catalog (f\<lparr>min_storage := None\<rparr>) limit"
    "search catalog (f\<lparr>min_battery := Some 0\<rparr>) limit =
       search catalog (f\<lparr>min_battery := None\<rparr>) limit"
    by (simp_all add: search_def query_rows_def Let_def choose_order_def
          apply_filters_zero_min)
  have focus: "search catalog (f\<lparr>camera_focus := Some False\<rparr>) limit =
       search catalog (f\<lparr>camera_focus := None\<rparr>) limit"
    "search catalog (f\<lparr>battery_focus := Some False\<rparr>) limit =
       search catalog (f\<lparr>battery_focus := None\<rparr>) limit"
    "search catalog (f\<lparr>performance_focus := Some False\<rparr>) limit =
       search catalog (f\<lparr>performance_focus := None\<rparr>) limit"
    "search catalog (f\<lparr>compact_size := Some False\<rparr>) limit =
       search catalog (f\<lparr>compact_size := None\<rparr>) limit"
    by (simp_all add: search_def query_rows_def Let_def choose_order_def
          truthy_bool_def apply_filters_focus)
  have feat: "\<forall>p \<in> set (search catalog (f\<lparr>five_g := Some False\<rparr>) limit). \<not> MobilePhone.five_g p"
    "\<forall>p \<in> set (search catalog (f\<lparr>nfc := Some False\<rparr>) limit). \<not> MobilePhone.nfc p"
    "\<forall>p \<in> set (search catalog (f\<lparr>wireless_charging := Some False\<rparr>) limit).
        \<not> MobilePhone.wireless_charging p"
    using search_subset [of catalog "f\<lparr>five_g := Some False\<rparr>" limit]
          search_subset [of catalog "f\<lparr>nfc := Some False\<rparr>" limit]
          search_subset [of catalog "f\<lparr>wireless_charging := Some False\<rparr>" limit]
    by (auto simp: in_apply_filters subset_iff)
  show ?thesis
    using zero focus feat by blast
qed



theorem C10_zero_and_false_like_absent_witness:
  "search example_catalog (SearchFilters_default\<lparr>five_g := Some False\<rparr>) 10 = [redmi] \<and>
   \<not> MobilePhone.five_g redmi \<and>
   search example_catalog (SearchFilters_default\<lparr>five_g := None\<rparr>) 10 = [redmi, galaxy] \<and>
   search example_catalog (SearchFilters_default\<lparr>min_ram := Some 0\<rparr>) 10 = [redmi, galaxy] \<and>
   search example_catalog (SearchFilters_default\<lparr>min_ram := None\<rparr>) 10 = [redmi, galaxy]"
proof -
  have a: "search example_catalog (SearchFilters_default\<lparr>five_g := Some False\<rparr>) 10 = [redmi]"
    by code_simp
  have b: "search example_catalog (SearchFilters_default\<lparr>five_g := None\<rparr>) 10 = [redmi, galaxy]"
    by code_simp
  have c: "search example_catalog (SearchFilters_default\<lparr>min_ram := None\<rparr>) 10 = [redmi, galaxy]"
    by code_simp
  show ?thesis
    using C10_zero_and_false_like_absent [of example_catalog SearchFilters_default 10] a b c
    by simp
qed


section \<open>Safety gate and chat pipeline: proofs\<close>










end
